theory Spec2Isabelle
  imports Complex_Main "HOL-Library.Char_ord" "HOL-Library.List_Lexorder" "HOL-Library.Multiset"
begin

section \<open>The two tables\<close>

text \<open>
  \<^verbatim>\<open>app.py\<close> reads \<^verbatim>\<open>matches.csv\<close> and \<^verbatim>\<open>deliveries.csv\<close> into two data frames and
  computes every figure of the dashboard from them with the data-frame library's
  primitives. A frame is modelled as the list of its rows, a row as a record of the
  columns the program reads. A column that may hold the library's missing-value marker
  (NaN) has an \<open>option\<close> type, \<open>None\<close> being the marker: these are the three columns
  \<^verbatim>\<open>load_data\<close> fills, and \<^verbatim>\<open>result\<close>, \<^verbatim>\<open>player_dismissed\<close> and \<^verbatim>\<open>dismissal_kind\<close>.
  The column \<^verbatim>\<open>id\<close> is called \<open>id_col\<close>, since \<open>id\<close> is the identity function of HOL.
\<close>

record match_row =
  id_col :: int
  season :: string
  city :: "string option"
  venue :: string
  team1 :: string
  team2 :: string
  toss_winner :: string
  winner :: "string option"
  result :: "string option"
  player_of_match :: "string option"

record delivery_row =
  match_id :: int
  batter :: string
  bowler :: string
  batsman_runs :: int
  total_runs :: int
  player_dismissed :: "string option"
  dismissal_kind :: "string option"

text \<open>
  The columns a join appends to a row are kept by name, as a list of named cells, so that
  the set of appended columns is a value of the model.
\<close>

datatype cell = NaN | IntCell int | StrCell string

record joined_row =
  delivery :: delivery_row
  added :: "(string \<times> cell) list"

datatype error = FileNotFoundError | ParserError | KeyError | TypeError | ZeroDivisionError

section \<open>The data-frame primitives the program calls\<close>

text \<open>
  \<^verbatim>\<open>Series.fillna(v)\<close> on one cell: a missing value becomes \<open>v\<close>, any other value stays.
\<close>

definition fillna :: "'a \<Rightarrow> 'a option \<Rightarrow> 'a option" where
  "fillna v x = (case x of None \<Rightarrow> Some v | Some y \<Rightarrow> Some y)"

text \<open>
  The program fills a column with \<^verbatim>\<open>matches[col].fillna(v, inplace=True)\<close>: the in-place fill
  is called on the object that the selection \<^verbatim>\<open>matches[col]\<close> returns, not on the frame.
  What this does to the frame depends on the version of the library, and the program pins
  none, so the version is an input of the model:
  \<^item> \<open>WritesThrough\<close> (versions before 3): the selection is the frame's own column, and the
    fill reaches the frame;
  \<^item> \<open>CopyOnWrite\<close> (version 3 on): the selection is a temporary object; the frame stays as
    read, and a column without any value, which is read as a column of floats, refuses
    the string with \<^verbatim>\<open>TypeError\<close>.
\<close>

datatype library = WritesThrough | CopyOnWrite

definition fillna_inplace ::
  "library \<Rightarrow> (match_row \<Rightarrow> string option) \<Rightarrow> (match_row \<Rightarrow> match_row) \<Rightarrow> match_row list
     \<Rightarrow> error + match_row list" where
  "fillna_inplace lib col fill matches =
     (case lib of
        WritesThrough \<Rightarrow> Inr (map fill matches)
      | CopyOnWrite \<Rightarrow>
          if matches \<noteq> [] \<and> list_all (\<lambda>m. col m = None) matches then Inl TypeError
          else Inr matches)"

text \<open>\<^verbatim>\<open>dropna\<close>: the values of a column that are not missing, in row order.\<close>

fun dropna :: "'a option list \<Rightarrow> 'a list" where
  "dropna [] = []"
| "dropna (None # xs) = dropna xs"
| "dropna (Some x # xs) = x # dropna xs"

text \<open>\<^verbatim>\<open>Series.unique()\<close>: the distinct values in the order of their first appearance.\<close>

fun unique :: "'a list \<Rightarrow> 'a list" where
  "unique [] = []"
| "unique (x # xs) = x # unique (filter (\<lambda>y. y \<noteq> x) xs)"

text \<open>\<^verbatim>\<open>Series.nunique()\<close>: the number of distinct values.\<close>

definition nunique :: "'a list \<Rightarrow> nat" where
  "nunique xs = length (unique xs)"

text \<open>The position of the first row that holds \<open>x\<close> (the length of the list when none does).\<close>

fun first_pos :: "'a \<Rightarrow> 'a list \<Rightarrow> nat" where
  "first_pos x [] = 0"
| "first_pos x (y # ys) = (if x = y then 0 else Suc (first_pos x ys))"

text \<open>
  \<^verbatim>\<open>sort_values(ascending=False)\<close> on a series of counts, which \<^verbatim>\<open>value_counts()\<close> calls too:
  the rows, rearranged so that the counts descend. The program passes no sorting method, and
  the default one is not stable: the order it gives to rows with equal counts depends on
  the sorting routine of the installation. The routine is therefore a parameter of the
  model, a value of the type \<open>sorter\<close>, of which only this contract is known;
  \<open>sort_values_desc s\<close> is the sort that the routine \<open>s\<close> performs.
\<close>

typedef 'k sorter =
  "{f :: ('k \<times> nat) list \<Rightarrow> ('k \<times> nat) list.
      \<forall>kvs. mset (f kvs) = mset kvs \<and> sorted_wrt (\<lambda>a b. snd b \<le> snd a) (f kvs)}"
  morphisms sort_values_desc Sorter
proof
  have "sorted_wrt (\<lambda>a b. snd b \<le> snd a) (rev (sort_key snd kvs))"
    for kvs :: "('k \<times> nat) list"
    using sorted_sort_key [of snd kvs] by (simp add: sorted_wrt_rev sorted_map)
  then show "(\<lambda>kvs. rev (sort_key snd kvs)) \<in>
      {f :: ('k \<times> nat) list \<Rightarrow> ('k \<times> nat) list.
         \<forall>kvs. mset (f kvs) = mset kvs \<and> sorted_wrt (\<lambda>a b. snd b \<le> snd a) (f kvs)}"
    by simp
qed

text \<open>
  Two routines. \<open>ties_in_order\<close> keeps rows with equal counts in the order in which they
  come (a stable sort). \<open>ties_reversed\<close> sorts ascending, stably, and reverses the result,
  so that rows with equal counts come out in reverse.
\<close>

definition ties_in_order :: "'k sorter" where
  "ties_in_order = Sorter (\<lambda>kvs. sort_key (\<lambda>kv. - int (snd kv)) kvs)"

definition ties_reversed :: "'k sorter" where
  "ties_reversed = Sorter (\<lambda>kvs. rev (sort_key snd kvs))"

text \<open>
  \<^verbatim>\<open>Series.value_counts()\<close> of the non-missing values of a column: one row per distinct
  value with the number of its occurrences, sorted descending by that number.
\<close>

definition value_counts :: "'a sorter \<Rightarrow> 'a list \<Rightarrow> ('a \<times> nat) list" where
  "value_counts s xs = sort_values_desc s (map (\<lambda>k. (k, count_list xs k)) (unique xs))"

text \<open>\<^verbatim>\<open>groupby(key).size()\<close>: one row per distinct key, ascending by key, with its row count.\<close>

definition groupby_size :: "('k::linorder) list \<Rightarrow> ('k \<times> nat) list" where
  "groupby_size ks = map (\<lambda>k. (k, count_list ks k)) (sort (unique ks))"

text \<open>\<^verbatim>\<open>head(n)\<close>: the first \<open>n\<close> rows.\<close>

definition head :: "nat \<Rightarrow> 'a list \<Rightarrow> 'a list" where
  "head n xs = take n xs"

text \<open>
  \<^verbatim>\<open>left.merge(right, left_on='match_id', right_on=key, how='left')\<close>: every row of the
  left frame, in order, once for each right row whose key equals its \<^verbatim>\<open>match_id\<close>, with
  the right row's columns appended; a left row with no partner appears once, with the
  right frame's columns missing. Both key columns are kept, since their names differ.
\<close>

definition merge_left ::
  "delivery_row list \<Rightarrow> string list \<Rightarrow> (string \<times> cell) list list \<Rightarrow> string \<Rightarrow> joined_row list" where
  "merge_left left rcols right right_on =
     concat (map (\<lambda>d.
       let hits = filter (\<lambda>r. map_of r right_on = Some (IntCell (match_id d))) right
       in if hits = [] then [\<lparr>delivery = d, added = map (\<lambda>c. (c, NaN)) rcols\<rparr>]
          else map (\<lambda>r. \<lparr>delivery = d, added = r\<rparr>) hits) left)"

text \<open>Python's \<^verbatim>\<open>a / b\<close> on integers raises \<^verbatim>\<open>ZeroDivisionError\<close> when \<open>b\<close> is zero. The
  quotient is kept exact (a rational); the rounding of the float is not modelled.\<close>

definition truediv :: "int \<Rightarrow> int \<Rightarrow> error + rat" where
  "truediv a b = (if b = 0 then Inl ZeroDivisionError else Inr (of_int a / of_int b))"

section \<open>Loading: \<^verbatim>\<open>load_data\<close>\<close>

text \<open>
  What \<^verbatim>\<open>pd.read_csv\<close> gives for each file: the rows, or the exception it raises. A file
  that lacks a column the block reads raises \<^verbatim>\<open>KeyError\<close> inside the same \<^verbatim>\<open>try\<close> block;
  with typed rows this is a failing read of that file.
\<close>

record sources =
  matches_csv :: "error + match_row list"
  deliveries_csv :: "error + delivery_row list"

text \<open>What each of the three fills writes into a row, when it reaches the frame.\<close>

definition fill_city :: "match_row \<Rightarrow> match_row" where
  "fill_city m = m\<lparr>city := fillna ''Unknown'' (city m)\<rparr>"

definition fill_winner :: "match_row \<Rightarrow> match_row" where
  "fill_winner m = m\<lparr>winner := fillna ''No Result'' (winner m)\<rparr>"

definition fill_player_of_match :: "match_row \<Rightarrow> match_row" where
  "fill_player_of_match m = m\<lparr>player_of_match := fillna ''Unknown'' (player_of_match m)\<rparr>"

text \<open>\<^verbatim>\<open>matches[['id', 'season']]\<close>: the two columns, by name.\<close>

definition select_id_season :: "match_row list \<Rightarrow> (string \<times> cell) list list" where
  "select_id_season ms =
     map (\<lambda>m. [(''id'', IntCell (id_col m)), (''season'', StrCell (season m))]) ms"

text \<open>
  The body of the \<^verbatim>\<open>try\<close> block: the two reads, the three fills in the order of the
  block, the join. The first exception ends it.
\<close>

definition load_body :: "library \<Rightarrow> sources \<Rightarrow> error + (match_row list \<times> joined_row list)" where
  "load_body lib src =
     (case matches_csv src of
        Inl e \<Rightarrow> Inl e
      | Inr matches \<Rightarrow>
     (case deliveries_csv src of
        Inl e \<Rightarrow> Inl e
      | Inr deliveries \<Rightarrow>
     (case fillna_inplace lib city fill_city matches of
        Inl e \<Rightarrow> Inl e
      | Inr matches1 \<Rightarrow>
     (case fillna_inplace lib winner fill_winner matches1 of
        Inl e \<Rightarrow> Inl e
      | Inr matches2 \<Rightarrow>
     (case fillna_inplace lib player_of_match fill_player_of_match matches2 of
        Inl e \<Rightarrow> Inl e
      | Inr matches3 \<Rightarrow>
          Inr (matches3,
               merge_left deliveries [''id'', ''season''] (select_id_season matches3) ''id''))))))"

text \<open>
  \<^verbatim>\<open>load_data\<close>: the pair of frames, or, when the body raised, the error shown with
  \<^verbatim>\<open>st.error\<close> and the pair \<^verbatim>\<open>(None, None)\<close>. The first component lists what was shown.
\<close>

definition load_data ::
  "library \<Rightarrow> sources \<Rightarrow> error list \<times> match_row list option \<times> joined_row list option" where
  "load_data lib src =
     (case load_body lib src of
        Inr (matches, deliveries) \<Rightarrow> ([], Some matches, Some deliveries)
      | Inl e \<Rightarrow> ([e], None, None))"

section \<open>The aggregations of the pages\<close>

subsection \<open>Home page\<close>

text \<open>\<^verbatim>\<open>matches['team1'].nunique()\<close>, the "Total Teams" metric.\<close>

definition total_teams :: "match_row list \<Rightarrow> nat" where
  "total_teams matches = nunique (map team1 matches)"

text \<open>\<^verbatim>\<open>matches.groupby('season').size()\<close>.\<close>

definition matches_per_season :: "match_row list \<Rightarrow> (string \<times> nat) list" where
  "matches_per_season matches = groupby_size (map season matches)"

text \<open>\<^verbatim>\<open>matches['winner'].value_counts().head(n)\<close>; the page takes \<open>n = 5\<close>.\<close>

definition top_winning_teams ::
  "string sorter \<Rightarrow> nat \<Rightarrow> match_row list \<Rightarrow> (string \<times> nat) list" where
  "top_winning_teams s n matches = head n (value_counts s (dropna (map winner matches)))"

definition team_wins_top5 :: "string sorter \<Rightarrow> match_row list \<Rightarrow> (string \<times> nat) list" where
  "team_wins_top5 s matches = top_winning_teams s 5 matches"

text \<open>
  \<^verbatim>\<open>matches[matches['winner'] != 'No Result']\<close>: a missing winner is unequal to every
  string, so such a row is kept.
\<close>

definition matches_with_result :: "match_row list \<Rightarrow> match_row list" where
  "matches_with_result matches = filter (\<lambda>m. winner m \<noteq> Some ''No Result'') matches"

text \<open>The derived column \<^verbatim>\<open>toss_winner == winner\<close>, row by row.\<close>

definition toss_winner_is_match_winner :: "match_row \<Rightarrow> bool" where
  "toss_winner_is_match_winner m = (winner m = Some (toss_winner m))"

definition toss_impact :: "bool sorter \<Rightarrow> match_row list \<Rightarrow> (bool \<times> nat) list" where
  "toss_impact s matches =
     value_counts s (map toss_winner_is_match_winner (matches_with_result matches))"

text \<open>The count of a bucket of a frequency table; a bucket that is not listed has no rows.\<close>

definition bucket :: "('k \<times> nat) list \<Rightarrow> 'k \<Rightarrow> nat" where
  "bucket tbl k = (case map_of tbl k of None \<Rightarrow> 0 | Some c \<Rightarrow> c)"

subsection \<open>Team analysis page\<close>

text \<open>\<^verbatim>\<open>sorted(matches['team1'].unique())\<close>, the choices of the team selector.\<close>

definition teams :: "match_row list \<Rightarrow> string list" where
  "teams matches = sort (unique (map team1 matches))"

definition team_matches :: "string \<Rightarrow> match_row list \<Rightarrow> match_row list" where
  "team_matches selected_team matches =
     filter (\<lambda>m. team1 m = selected_team \<or> team2 m = selected_team) matches"

definition team_wins :: "string \<Rightarrow> match_row list \<Rightarrow> match_row list" where
  "team_wins selected_team matches = filter (\<lambda>m. winner m = Some selected_team) matches"

text \<open>
  \<^verbatim>\<open>(len(team_wins) / len(team_matches) * 100) if len(team_matches) > 0 else 0\<close>.
\<close>

definition win_rate :: "string \<Rightarrow> match_row list \<Rightarrow> error + rat" where
  "win_rate selected_team matches =
     (if length (team_matches selected_team matches) > 0
      then (case truediv (int (length (team_wins selected_team matches)))
                         (int (length (team_matches selected_team matches))) of
              Inl e \<Rightarrow> Inl e
            | Inr q \<Rightarrow> Inr (q * 100))
      else Inr 0)"

subsection \<open>Player statistics page\<close>

text \<open>\<^verbatim>\<open>deliveries[deliveries['player_dismissed'].notna()]\<close>.\<close>

definition wickets :: "joined_row list \<Rightarrow> joined_row list" where
  "wickets deliveries = filter (\<lambda>r. player_dismissed (delivery r) \<noteq> None) deliveries"

text \<open>\<^verbatim>\<open>wickets.groupby('bowler').size().sort_values(ascending=False).head(n)\<close>.\<close>

definition top_bowlers :: "string sorter \<Rightarrow> nat \<Rightarrow> joined_row list \<Rightarrow> (string \<times> nat) list" where
  "top_bowlers s n deliveries =
     head n (sort_values_desc s
       (groupby_size (map (\<lambda>r. bowler (delivery r)) (wickets deliveries))))"

subsection \<open>Auxiliary definitions\<close>

text \<open>The names of the columns a join appended to a row.\<close>

definition added_columns :: "joined_row \<Rightarrow> string list" where
  "added_columns r = map fst (added r)"

text \<open>
  The rows the join of \<^verbatim>\<open>load_data\<close> gives for one delivery row \<open>d\<close>: one for each match row
  whose \<^verbatim>\<open>id\<close> is the delivery's \<^verbatim>\<open>match_id\<close>, or one with both appended columns missing.
  \<open>merge_left_groups\<close> below shows that the join is the concatenation of these groups.
\<close>

definition join_group :: "match_row list \<Rightarrow> delivery_row \<Rightarrow> joined_row list" where
  "join_group ms d =
     (if filter (\<lambda>m. id_col m = match_id d) ms = []
      then [\<lparr>delivery = d, added = [(''id'', NaN), (''season'', NaN)]\<rparr>]
      else map (\<lambda>m. \<lparr>delivery = d,
                      added = [(''id'', IntCell (id_col m)), (''season'', StrCell (season m))]\<rparr>)
             (filter (\<lambda>m. id_col m = match_id d) ms))"

text \<open>
  The order the specification gives to a ranking: descending by count, and rows with equal
  counts in the order in which their values first occur in the column \<open>col\<close>.
\<close>

definition first_occurrence_ranked :: "'a list \<Rightarrow> ('a \<times> nat) list \<Rightarrow> bool" where
  "first_occurrence_ranked col tbl =
     sorted_wrt (\<lambda>a b. snd b < snd a \<or>
        (snd a = snd b \<and> first_pos (fst a) col < first_pos (fst b) col)) tbl"

subsection \<open>Example tables\<close>

text \<open>Two matches of teams A and B; the second has no winner, city or player of the match.\<close>

definition scenario_A :: "match_row list" where
  "scenario_A =
     [\<lparr>id_col = 1, season = ''2020'', city = Some ''Pune'', venue = ''V'', team1 = ''A'',
       team2 = ''B'', toss_winner = ''B'', winner = Some ''A'', result = Some ''runs'',
       player_of_match = Some ''P''\<rparr>,
      \<lparr>id_col = 2, season = ''2020'', city = None, venue = ''V'', team1 = ''A'',
       team2 = ''B'', toss_winner = ''A'', winner = None, result = None,
       player_of_match = None\<rparr>]"

text \<open>Two deliveries: one of match 1, one of a match that is not in the match table.\<close>

definition scenario_B :: "delivery_row list" where
  "scenario_B =
     [\<lparr>match_id = 1, batter = ''X'', bowler = ''Y'', batsman_runs = 4, total_runs = 4,
       player_dismissed = None, dismissal_kind = None\<rparr>,
      \<lparr>match_id = 7, batter = ''X'', bowler = ''Y'', batsman_runs = 0, total_runs = 0,
       player_dismissed = Some ''X'', dismissal_kind = Some ''run out''\<rparr>]"

text \<open>Two matches; the second records A as winner of a match between C and B.\<close>

definition scenario_C :: "match_row list" where
  "scenario_C =
     [\<lparr>id_col = 1, season = ''2020'', city = Some ''Pune'', venue = ''V'', team1 = ''A'',
       team2 = ''B'', toss_winner = ''A'', winner = Some ''A'', result = Some ''runs'',
       player_of_match = Some ''P''\<rparr>,
      \<lparr>id_col = 2, season = ''2021'', city = Some ''Pune'', venue = ''V'', team1 = ''C'',
       team2 = ''B'', toss_winner = ''B'', winner = Some ''A'', result = Some ''wickets'',
       player_of_match = Some ''Q''\<rparr>]"

text \<open>
  Four joined deliveries: bowler Y with a run-out and a catch, one ball without a dismissal,
  and bowler W with one wicket.
\<close>

definition scenario_D :: "joined_row list" where
  "scenario_D =
     [\<lparr>delivery = \<lparr>match_id = 1, batter = ''P'', bowler = ''Y'', batsman_runs = 0, total_runs = 0,
        player_dismissed = Some ''P'', dismissal_kind = Some ''run out''\<rparr>,
       added = [(''id'', IntCell 1), (''season'', StrCell ''2020'')]\<rparr>,
      \<lparr>delivery = \<lparr>match_id = 1, batter = ''Q'', bowler = ''Y'', batsman_runs = 1, total_runs = 1,
        player_dismissed = None, dismissal_kind = None\<rparr>,
       added = [(''id'', IntCell 1), (''season'', StrCell ''2020'')]\<rparr>,
      \<lparr>delivery = \<lparr>match_id = 1, batter = ''Q'', bowler = ''W'', batsman_runs = 0, total_runs = 0,
        player_dismissed = Some ''Q'', dismissal_kind = Some ''bowled''\<rparr>,
       added = [(''id'', IntCell 1), (''season'', StrCell ''2020'')]\<rparr>,
      \<lparr>delivery = \<lparr>match_id = 1, batter = ''R'', bowler = ''Y'', batsman_runs = 0, total_runs = 0,
        player_dismissed = Some ''R'', dismissal_kind = Some ''caught''\<rparr>,
       added = [(''id'', IntCell 1), (''season'', StrCell ''2020'')]\<rparr>]"

text \<open>
  Six matches; in order of first occurrence the winners are C, D, A and B, with two wins
  each for C and D and one each for A and B.
\<close>

definition scenario_E :: "match_row list" where
  "scenario_E =
     map (\<lambda>(i, w). \<lparr>id_col = i, season = ''2020'', city = Some ''Pune'', venue = ''V'',
                     team1 = ''C'', team2 = ''D'', toss_winner = ''C'', winner = Some w,
                     result = Some ''runs'', player_of_match = Some ''P''\<rparr>)
       [(1, ''C''), (2, ''D''), (3, ''A''), (4, ''B''), (5, ''C''), (6, ''D'')]"

text \<open>The second match of the first example alone: every column the block fills is empty.\<close>

definition scenario_F :: "match_row list" where
  "scenario_F = [scenario_A ! 1]"

section \<open>Facts about the primitives\<close>

lemma set_unique: "set (unique xs) = set xs"
  by (induction xs rule: unique.induct) auto

lemma distinct_unique: "distinct (unique xs)"
  by (induction xs rule: unique.induct) (auto simp: set_unique)

lemma length_unique: "length (unique xs) = card (set xs)"
  using distinct_card [OF distinct_unique, of xs] by (simp add: set_unique)

lemma count_list_map: "count_list (map f xs) k = length (filter (\<lambda>x. f x = k) xs)"
  by (induction xs) auto

lemma count_list_pos: "x \<in> set xs \<Longrightarrow> 0 < count_list xs x"
  using count_list_0_iff [of xs x] by linarith

lemma sum_counts_distinct:
  assumes "distinct ks" and "set ks = set xs"
  shows "sum_list (map (count_list xs) ks) = length xs"
proof -
  have "sum_list (map (count_list xs) ks) = sum (count_list xs) (set ks)"
    using assms(1) by (simp add: sum_list_distinct_conv_sum_set)
  also have "\<dots> = length xs"
    using assms(2) by (simp add: sum_count_set)
  finally show ?thesis .
qed

text \<open>What the contract of a sorting routine gives.\<close>

lemma mset_sort_values_desc: "mset (sort_values_desc s kvs) = mset kvs"
  using sort_values_desc [of s] by simp

lemma sorted_sort_values_desc: "sorted_wrt (\<lambda>a b. snd b \<le> snd a) (sort_values_desc s kvs)"
  using sort_values_desc [of s] by simp

lemma set_sort_values_desc: "set (sort_values_desc s kvs) = set kvs"
  using mset_sort_values_desc [of s kvs] by (rule mset_eq_setD)

lemma length_sort_values_desc: "length (sort_values_desc s kvs) = length kvs"
  using mset_sort_values_desc [of s kvs] by (rule mset_eq_length)

lemma mset_map_sort_values_desc: "mset (map f (sort_values_desc s kvs)) = mset (map f kvs)"
  by (simp add: mset_sort_values_desc)

lemma sum_sort_values_desc: "sum_list (map snd (sort_values_desc s kvs)) = sum_list (map snd kvs)"
  using mset_map_sort_values_desc [of snd s kvs] by (metis sum_mset_sum_list)

lemma distinct_keys_sort_values_desc:
  "distinct (map fst (sort_values_desc s kvs)) = distinct (map fst kvs)"
  using mset_map_sort_values_desc [of fst s kvs] by (rule mset_eq_imp_distinct_iff)

lemma sort_values_desc_ties_in_order:
  "sort_values_desc ties_in_order kvs = sort_key (\<lambda>kv. - int (snd kv)) kvs"
proof -
  have "sorted_wrt (\<lambda>a b. snd b \<le> snd a) (sort_key (\<lambda>kv. - int (snd kv)) xs)"
    for xs :: "('a \<times> nat) list"
    using sorted_sort_key [of "\<lambda>kv. - int (snd kv)" xs] by (simp add: sorted_map)
  then show ?thesis
    by (simp add: ties_in_order_def Sorter_inverse)
qed

lemma sort_values_desc_ties_reversed:
  "sort_values_desc ties_reversed kvs = rev (sort_key snd kvs)"
proof -
  have "sorted_wrt (\<lambda>a b. snd b \<le> snd a) (rev (sort_key snd xs))"
    for xs :: "('a \<times> nat) list"
    using sorted_sort_key [of snd xs] by (simp add: sorted_wrt_rev sorted_map)
  then show ?thesis
    by (simp add: ties_reversed_def Sorter_inverse)
qed

text \<open>The two counting primitives.\<close>

lemma set_groupby_size: "set (groupby_size ks) = (\<lambda>k. (k, count_list ks k)) ` set ks"
  by (simp add: groupby_size_def set_unique)

lemma keys_groupby_size: "map fst (groupby_size ks) = sort (unique ks)"
  by (simp add: groupby_size_def comp_def)

lemma sum_groupby_size: "sum_list (map snd (groupby_size ks)) = length ks"
proof -
  have "map snd (groupby_size ks) = map (count_list ks) (sort (unique ks))"
    by (simp add: groupby_size_def comp_def)
  moreover have "distinct (sort (unique ks))" and "set (sort (unique ks)) = set ks"
    by (simp_all add: distinct_unique set_unique)
  ultimately show ?thesis
    by (simp add: sum_counts_distinct)
qed

lemma length_groupby_size_le: "length (groupby_size ks) \<le> length ks"
  by (simp add: groupby_size_def length_unique card_length)

lemma set_value_counts: "set (value_counts s xs) = (\<lambda>k. (k, count_list xs k)) ` set xs"
  by (simp add: value_counts_def set_sort_values_desc set_unique)

lemma length_value_counts: "length (value_counts s xs) = card (set xs)"
  by (simp add: value_counts_def length_sort_values_desc length_unique)

lemma distinct_keys_value_counts: "distinct (map fst (value_counts s xs))"
  by (simp add: value_counts_def distinct_keys_sort_values_desc comp_def distinct_unique)

lemma sorted_value_counts: "sorted_wrt (\<lambda>a b. snd b \<le> snd a) (value_counts s xs)"
  by (simp add: value_counts_def sorted_sort_values_desc)

lemma sum_value_counts: "sum_list (map snd (value_counts s xs)) = length xs"
proof -
  have "sum_list (map snd (value_counts s xs)) = sum_list (map (count_list xs) (unique xs))"
    by (simp add: value_counts_def sum_sort_values_desc comp_def)
  then show ?thesis
    by (simp add: sum_counts_distinct distinct_unique set_unique)
qed

lemma bucket_value_counts: "bucket (value_counts s xs) k = count_list xs k"
proof (cases "k \<in> set xs")
  case True
  then have "(k, count_list xs k) \<in> set (value_counts s xs)"
    by (simp add: set_value_counts)
  then have "map_of (value_counts s xs) k = Some (count_list xs k)"
    using distinct_keys_value_counts [of s xs] by simp
  then show ?thesis by (simp add: bucket_def)
next
  case False
  then have "k \<notin> fst ` set (value_counts s xs)"
    by (auto simp: set_value_counts)
  then have "map_of (value_counts s xs) k = None"
    by (simp add: map_of_eq_None_iff)
  with False show ?thesis by (simp add: bucket_def)
qed

lemma set_dropna: "set (dropna xs) = {x. Some x \<in> set xs}"
  by (induction xs rule: dropna.induct) auto

lemma count_list_dropna: "count_list (dropna xs) k = count_list xs (Some k)"
  by (induction xs rule: dropna.induct) auto

lemma length_dropna_le: "length (dropna xs) \<le> length xs"
  by (induction xs rule: dropna.induct) auto

section \<open>Facts about the load\<close>

lemma delivery_join_group: "delivery ` set (join_group ms d) = {d}"
  by (auto simp: join_group_def image_iff filter_empty_conv)

lemma filter_key_distinct:
  "distinct (map f xs) \<Longrightarrow> length (filter (\<lambda>x. f x = k) xs) \<le> 1"
  by (induction xs) (auto simp: filter_empty_conv image_iff)

lemma join_group_single:
  assumes "distinct (map id_col ms)"
  shows "map delivery (join_group ms d) = [d]"
proof -
  have "length (filter (\<lambda>m. id_col m = match_id d) ms) \<le> 1"
    using assms by (rule filter_key_distinct)
  then show ?thesis
    by (cases "filter (\<lambda>m. id_col m = match_id d) ms") (auto simp: join_group_def)
qed

lemma join_group_added:
  assumes "r \<in> set (join_group ms d)"
  shows "(\<exists>m\<in>set ms. id_col m = match_id d \<and>
            added r = [(''id'', IntCell (id_col m)), (''season'', StrCell (season m))])
         \<or> ((\<forall>m\<in>set ms. id_col m \<noteq> match_id d) \<and> added r = [(''id'', NaN), (''season'', NaN)])"
  using assms by (auto simp: join_group_def filter_empty_conv split: if_splits)

lemma select_id_season_filled:
  "select_id_season (map (\<lambda>m. fill_player_of_match (fill_winner (fill_city m))) ms) =
     select_id_season ms"
  by (simp add: select_id_season_def fill_city_def fill_winner_def fill_player_of_match_def
      comp_def)

lemma merge_left_groups:
  "merge_left ds [''id'', ''season''] (select_id_season ms) ''id'' = concat (map (join_group ms) ds)"
proof -
  have "(\<lambda>d. let hits = filter (\<lambda>r. map_of r ''id'' = Some (IntCell (match_id d)))
                            (select_id_season ms)
             in if hits = [] then [\<lparr>delivery = d, added = map (\<lambda>c. (c, NaN)) [''id'', ''season'']\<rparr>]
                else map (\<lambda>r. \<lparr>delivery = d, added = r\<rparr>) hits) = join_group ms"
    by (rule ext) (simp add: select_id_season_def join_group_def filter_map comp_def Let_def)
  then show ?thesis
    by (simp add: merge_left_def)
qed

text \<open>What the three fills leave of the table as read, in either library.\<close>

lemma load_body_writes_through:
  "load_body WritesThrough \<lparr>matches_csv = Inr ms, deliveries_csv = Inr ds\<rparr> =
     Inr (map (\<lambda>m. fill_player_of_match (fill_winner (fill_city m))) ms,
          concat (map (join_group ms) ds))"
proof -
  let ?ms = "map (\<lambda>m. fill_player_of_match (fill_winner (fill_city m))) ms"
  have "select_id_season ?ms = select_id_season ms"
    by (rule select_id_season_filled)
  then have "merge_left ds [''id'', ''season''] (select_id_season ?ms) ''id'' =
      concat (map (join_group ms) ds)"
    by (simp add: merge_left_groups)
  then show ?thesis
    by (simp add: load_body_def fillna_inplace_def comp_def)
qed

lemma load_body_copy_on_write:
  "load_body CopyOnWrite \<lparr>matches_csv = Inr ms, deliveries_csv = Inr ds\<rparr> =
     (if ms \<noteq> [] \<and> (list_all (\<lambda>m. city m = None) ms \<or> list_all (\<lambda>m. winner m = None) ms
           \<or> list_all (\<lambda>m. player_of_match m = None) ms)
      then Inl TypeError
      else Inr (ms, concat (map (join_group ms) ds)))"
  by (simp add: load_body_def fillna_inplace_def merge_left_groups)

lemma load_data_writes_through_normalizes:
  "\<exists>deliveries'.
     load_data WritesThrough \<lparr>matches_csv = Inr ms, deliveries_csv = Inr ds\<rparr> =
       ([], Some (map (\<lambda>m. m\<lparr>city := Some (case city m of None \<Rightarrow> ''Unknown'' | Some c \<Rightarrow> c),
                              winner := Some (case winner m of None \<Rightarrow> ''No Result'' | Some w \<Rightarrow> w),
                              player_of_match :=
                                Some (case player_of_match m of None \<Rightarrow> ''Unknown'' | Some p \<Rightarrow> p)\<rparr>) ms),
        Some deliveries')
     \<and> delivery ` set deliveries' = set ds"
proof -
  have "delivery ` set (concat (map (join_group ms) ds)) = set ds"
    by (auto simp: delivery_join_group image_UN)
  moreover have "fill_player_of_match (fill_winner (fill_city m)) =
      m\<lparr>city := Some (case city m of None \<Rightarrow> ''Unknown'' | Some c \<Rightarrow> c),
        winner := Some (case winner m of None \<Rightarrow> ''No Result'' | Some w \<Rightarrow> w),
        player_of_match := Some (case player_of_match m of None \<Rightarrow> ''Unknown'' | Some p \<Rightarrow> p)\<rparr>"
    for m
    by (simp add: fill_city_def fill_winner_def fill_player_of_match_def fillna_def
        split: option.split)
  ultimately show ?thesis
    by (simp add: load_data_def load_body_writes_through)
qed

lemma load_data_copy_on_write_as_read:
  "load_data CopyOnWrite \<lparr>matches_csv = Inr ms, deliveries_csv = Inr ds\<rparr> =
     (shown, Some matches', deliveries') \<Longrightarrow> matches' = ms"
  by (auto simp: load_data_def load_body_copy_on_write split: if_splits)

section \<open>Matches per season\<close>

text \<open>
  C7. \<open>matches_per_season\<close> groups the rows of the match table by season: it lists every
  season of the table exactly once, the count beside a season is the number of rows of
  that season (so is the count of any season looked up in the result, 0 for a season the
  table does not have), and the counts add up to the number of rows of the table.
\<close>

theorem matches_per_season_total:
  "distinct (map fst (matches_per_season matches))
   \<and> set (map fst (matches_per_season matches)) = set (map season matches)
   \<and> (\<forall>(y, c) \<in> set (matches_per_season matches).
        c = length (filter (\<lambda>m. season m = y) matches) \<and> 0 < c)
   \<and> bucket (matches_per_season matches) y = length (filter (\<lambda>m. season m = y) matches)
   \<and> sum_list (map snd (matches_per_season matches)) = length matches"
proof -
  let ?ks = "map season matches"
  have d: "distinct (map fst (matches_per_season matches))"
    by (simp add: matches_per_season_def keys_groupby_size distinct_unique)
  have k: "set (map fst (matches_per_season matches)) = set ?ks"
    by (simp add: matches_per_season_def keys_groupby_size set_unique)
  have c: "\<forall>(y, c) \<in> set (matches_per_season matches).
        c = length (filter (\<lambda>m. season m = y) matches) \<and> 0 < c"
    by (auto simp: matches_per_season_def set_groupby_size count_list_map
        simp flip: length_greater_0_conv) (auto simp: filter_empty_conv)
  have b: "bucket (matches_per_season matches) y = length (filter (\<lambda>m. season m = y) matches)"
  proof (cases "y \<in> set ?ks")
    case True
    then have "(y, count_list ?ks y) \<in> set (matches_per_season matches)"
      by (simp add: matches_per_season_def set_groupby_size)
    with d have "map_of (matches_per_season matches) y = Some (count_list ?ks y)"
      by simp
    then show ?thesis by (simp add: bucket_def count_list_map)
  next
    case False
    with k have "y \<notin> fst ` set (matches_per_season matches)" by simp
    then have "map_of (matches_per_season matches) y = None"
      by (simp add: map_of_eq_None_iff)
    moreover from False have "count_list ?ks y = 0" by (simp add: count_list_0_iff)
    ultimately show ?thesis by (simp add: bucket_def count_list_map)
  qed
  have s: "sum_list (map snd (matches_per_season matches)) = length matches"
    by (simp add: matches_per_season_def sum_groupby_size)
  show ?thesis by (intro conjI d k c b s)
qed

text \<open>One match in each of two seasons; two matches in one season.\<close>

theorem matches_per_season_total_witness:
  "matches_per_season scenario_C = [(''2020'', 1), (''2021'', 1)]
   \<and> matches_per_season scenario_A = [(''2020'', 2)]
   \<and> bucket (matches_per_season scenario_A) ''2020'' = 2
   \<and> length (filter (\<lambda>m. season m = ''2020'') scenario_A) = 2"
proof -
  have a: "matches_per_season scenario_A = [(''2020'', 2)]"
    by (simp add: matches_per_season_def groupby_size_def scenario_A_def)
  have c: "matches_per_season scenario_C = [(''2020'', 1), (''2021'', 1)]"
    by (simp add: matches_per_season_def groupby_size_def scenario_C_def)
  from matches_per_season_total [of scenario_A "''2020''"]
  have "bucket (matches_per_season scenario_A) ''2020'' =
      length (filter (\<lambda>m. season m = ''2020'') scenario_A)"
    by simp
  moreover have "bucket (matches_per_season scenario_A) ''2020'' = 2"
    by (simp add: a bucket_def)
  ultimately show ?thesis using a c by simp
qed

section \<open>Top winning teams\<close>

text \<open>
  C1, as stated, fails in its tie order. With a sorting routine that is not stable, rows
  with equal counts do not come out in the order in which their winners first occur: in
  the example C occurs before D and A before B, and the ranking lists D before C and B
  before A.
\<close>

theorem ties_not_in_first_occurrence_order:
  "dropna (map winner scenario_E) = [''C'', ''D'', ''A'', ''B'', ''C'', ''D'']
   \<and> top_winning_teams ties_reversed 5 scenario_E = [(''D'', 2), (''C'', 2), (''B'', 1), (''A'', 1)]
   \<and> \<not> first_occurrence_ranked (dropna (map winner scenario_E))
         (top_winning_teams ties_reversed 5 scenario_E)"
proof -
  have w: "dropna (map winner scenario_E) = [''C'', ''D'', ''A'', ''B'', ''C'', ''D'']"
    by (simp add: scenario_E_def)
  have t: "top_winning_teams ties_reversed 5 scenario_E =
      [(''D'', 2), (''C'', 2), (''B'', 1), (''A'', 1)]"
    by (simp add: top_winning_teams_def head_def value_counts_def w
        sort_values_desc_ties_reversed)
  show ?thesis
    by (simp add: w t first_occurrence_ranked_def)
qed

text \<open>
  C1, amended. Whatever the sorting routine, \<open>top_winning_teams n\<close> has as many rows as the
  smaller of \<open>n\<close> and the number of distinct winner values that are not missing (all the
  distinct winner values, in a table without a missing winner); it is sorted descending by
  count and lists no winner twice; each count is the number of rows with that winner; the
  result is the first \<open>n\<close> rows of the full ranking, which lists every winner value of the
  table, "No Result" like any other: it is listed exactly when a row holds it, with the
  number of such rows. Nothing is said of the order among equal counts.
\<close>

theorem top_winning_teams_ranked:
  "length (top_winning_teams s n matches) = min n (card (set (dropna (map winner matches))))
   \<and> (None \<notin> set (map winner matches) \<longrightarrow>
        length (top_winning_teams s n matches) = min n (card (set (map winner matches))))
   \<and> sorted_wrt (\<lambda>a b. snd b \<le> snd a) (top_winning_teams s n matches)
   \<and> distinct (map fst (top_winning_teams s n matches))
   \<and> (\<forall>(w, c) \<in> set (top_winning_teams s n matches).
        c = length (filter (\<lambda>m. winner m = Some w) matches) \<and> 0 < c)
   \<and> top_winning_teams s n matches = take n (top_winning_teams s (length matches) matches)
   \<and> set (map fst (top_winning_teams s (length matches) matches)) =
        {w. Some w \<in> set (map winner matches)}
   \<and> ((''No Result'', c) \<in> set (top_winning_teams s (length matches) matches)) =
        (c = length (filter (\<lambda>m. winner m = Some ''No Result'') matches) \<and> 0 < c)"
proof -
  let ?ws = "dropna (map winner matches)"
  let ?full = "value_counts s ?ws"
  have top: "top_winning_teams s k matches = take k ?full" for k
    by (simp add: top_winning_teams_def head_def)
  have "length ?full \<le> length ?ws"
    by (simp add: length_value_counts card_length)
  also have "\<dots> \<le> length matches"
    using length_dropna_le [of "map winner matches"] by simp
  finally have full: "top_winning_teams s (length matches) matches = ?full"
    by (simp add: top)
  have cnt: "count_list ?ws w = length (filter (\<lambda>m. winner m = Some w) matches)" for w
    by (simp add: count_list_dropna count_list_map)
  have 1: "length (top_winning_teams s n matches) = min n (card (set ?ws))"
    by (simp add: top length_value_counts min.commute)
  have 2: "None \<notin> set (map winner matches) \<longrightarrow>
        length (top_winning_teams s n matches) = min n (card (set (map winner matches)))"
  proof
    assume "None \<notin> set (map winner matches)"
    then have "set (map winner matches) = Some ` set ?ws"
      by (auto simp: set_dropna image_iff) (metis not_Some_eq)
    then have "card (set (map winner matches)) = card (set ?ws)"
      by (simp add: card_image)
    with 1 show "length (top_winning_teams s n matches) = min n (card (set (map winner matches)))"
      by simp
  qed
  have 3: "sorted_wrt (\<lambda>a b. snd b \<le> snd a) (top_winning_teams s n matches)"
    unfolding top using sorted_value_counts by (rule sorted_wrt_take)
  have 4: "distinct (map fst (top_winning_teams s n matches))"
    unfolding top take_map [symmetric] using distinct_keys_value_counts by (rule distinct_take)
  have 5: "\<forall>(w, c) \<in> set (top_winning_teams s n matches).
        c = length (filter (\<lambda>m. winner m = Some w) matches) \<and> 0 < c"
  proof (rule ballI, rule case_prodI2)
    fix p w c
    assume "p \<in> set (top_winning_teams s n matches)" and "p = (w, c)"
    then have "(w, c) \<in> set ?full"
      unfolding top by (auto dest: in_set_takeD)
    then have "w \<in> set ?ws" and "c = count_list ?ws w"
      by (auto simp: set_value_counts)
    then show "c = length (filter (\<lambda>m. winner m = Some w) matches) \<and> 0 < c"
      using cnt [of w] count_list_pos [of w ?ws] by simp
  qed
  have 6: "top_winning_teams s n matches = take n (top_winning_teams s (length matches) matches)"
    by (simp add: full) (simp add: top)
  have 7: "set (map fst (top_winning_teams s (length matches) matches)) =
        {w. Some w \<in> set (map winner matches)}"
    unfolding full by (simp add: set_value_counts image_image set_dropna)
  have 8: "((''No Result'', c) \<in> set (top_winning_teams s (length matches) matches)) =
        (c = length (filter (\<lambda>m. winner m = Some ''No Result'') matches) \<and> 0 < c)"
  proof -
    have "(''No Result'' \<in> set ?ws) = (0 < count_list ?ws ''No Result'')"
      using count_list_0_iff [of ?ws "''No Result''"] by linarith
    then show ?thesis
      unfolding full set_value_counts cnt [symmetric] by auto
  qed
  show ?thesis by (intro conjI 1 2 3 4 5 6 7 8)
qed

text \<open>
  The six matches of the counterexample, and the two matches of the first example once the
  missing winner is filled with "No Result".
\<close>

theorem top_winning_teams_ranked_witness:
  "top_winning_teams ties_reversed 5 scenario_E = [(''D'', 2), (''C'', 2), (''B'', 1), (''A'', 1)]
   \<and> length (top_winning_teams ties_reversed 5 scenario_E) = min 5 4
   \<and> team_wins_top5 ties_in_order (map fill_winner scenario_A) = [(''A'', 1), (''No Result'', 1)]
   \<and> (''No Result'', 1) \<in> set (top_winning_teams ties_in_order 2 (map fill_winner scenario_A))"
proof -
  have w: "dropna (map winner scenario_E) = [''C'', ''D'', ''A'', ''B'', ''C'', ''D'']"
    by (simp add: scenario_E_def)
  have e: "top_winning_teams ties_reversed 5 scenario_E =
      [(''D'', 2), (''C'', 2), (''B'', 1), (''A'', 1)]"
    by (simp add: top_winning_teams_def head_def value_counts_def w
        sort_values_desc_ties_reversed)
  have c: "card (set (dropna (map winner scenario_E))) = 4"
    unfolding w length_remdups_card_conv [symmetric] by simp
  from top_winning_teams_ranked [of ties_reversed 5 scenario_E]
  have l: "length (top_winning_teams ties_reversed 5 scenario_E) = min 5 4"
    unfolding c by (rule conjunct1)
  have wa: "dropna (map winner (map fill_winner scenario_A)) = [''A'', ''No Result'']"
    by (simp add: scenario_A_def fill_winner_def fillna_def)
  have a: "top_winning_teams ties_in_order k (map fill_winner scenario_A) =
      take k [(''A'', 1), (''No Result'', 1)]" for k
    unfolding top_winning_teams_def head_def value_counts_def wa
    by (simp add: sort_values_desc_ties_in_order)
  from e l a [of 5] a [of 2] show ?thesis
    by (simp add: team_wins_top5_def)
qed

section \<open>Normalization at load\<close>

text \<open>
  C2 holds of the program under a library in which the in-place fill of a selected column
  reaches the frame (\<open>load_data_writes_through_normalizes\<close> above), and the program fails it
  under copy-on-write: the three fills are attempted and none reaches the frame. The first
  example table is returned as read, its second row still without winner, city and player
  of the match; a table in which a filled column has no value at all is not returned,
  since the fill raises.
\<close>

theorem load_data_copy_on_write_unfilled:
  "fst (snd (load_data CopyOnWrite \<lparr>matches_csv = Inr scenario_A, deliveries_csv = Inr scenario_B\<rparr>))
     = Some scenario_A
   \<and> map winner scenario_A = [Some ''A'', None]
   \<and> map city scenario_A = [Some ''Pune'', None]
   \<and> map player_of_match scenario_A = [Some ''P'', None]
   \<and> load_data CopyOnWrite \<lparr>matches_csv = Inr scenario_F, deliveries_csv = Inr scenario_B\<rparr>
     = ([TypeError], None, None)"
  by (simp add: load_data_def load_body_copy_on_write scenario_F_def) (simp add: scenario_A_def)

section \<open>The join of deliveries and matches\<close>

text \<open>
  C3, as stated, fails: the join appends two columns, not one. With \<^verbatim>\<open>left_on='match_id'\<close> and
  \<^verbatim>\<open>right_on='id'\<close> the key column \<^verbatim>\<open>id\<close> of the right frame is kept beside \<^verbatim>\<open>season\<close>. In the
  example the delivery of match 1 gets \<open>id = 1\<close> and \<open>season = 2020\<close>, the delivery of the
  unknown match 7 gets both columns missing, in either library.
\<close>

theorem join_adds_id_column:
  "snd (snd (load_data WritesThrough
       \<lparr>matches_csv = Inr scenario_A, deliveries_csv = Inr scenario_B\<rparr>)) =
     Some [\<lparr>delivery = scenario_B ! 0,
            added = [(''id'', IntCell 1), (''season'', StrCell ''2020'')]\<rparr>,
           \<lparr>delivery = scenario_B ! 1, added = [(''id'', NaN), (''season'', NaN)]\<rparr>]
   \<and> snd (snd (load_data CopyOnWrite
       \<lparr>matches_csv = Inr scenario_A, deliveries_csv = Inr scenario_B\<rparr>)) =
     Some [\<lparr>delivery = scenario_B ! 0,
            added = [(''id'', IntCell 1), (''season'', StrCell ''2020'')]\<rparr>,
           \<lparr>delivery = scenario_B ! 1, added = [(''id'', NaN), (''season'', NaN)]\<rparr>]
   \<and> added_columns \<lparr>delivery = scenario_B ! 0,
         added = [(''id'', IntCell 1), (''season'', StrCell ''2020'')]\<rparr> = [''id'', ''season'']
   \<and> added_columns \<lparr>delivery = scenario_B ! 0,
         added = [(''id'', IntCell 1), (''season'', StrCell ''2020'')]\<rparr> \<noteq> [''season'']"
  by (simp add: load_data_def load_body_def fillna_inplace_def merge_left_def select_id_season_def
      fill_city_def fill_winner_def fill_player_of_match_def fillna_def
      scenario_A_def scenario_B_def added_columns_def)

text \<open>
  C3, amended. Whenever \<open>load_data\<close> returns the tables from two files that were read (it
  always does when the fills write through; under copy-on-write it does unless a fill
  raises), every row of the delivery table is a delivery row as read, every delivery row
  occurs, and the join appends exactly the columns \<^verbatim>\<open>id\<close> and \<^verbatim>\<open>season\<close>: the id and the season
  of a match row whose id is the delivery's \<^verbatim>\<open>match_id\<close>, or both missing when no match row has
  that id. When the match ids are distinct, the delivery table holds the delivery rows one
  for one, in their order.
\<close>

theorem load_data_join:
  "(lib = WritesThrough \<longrightarrow>
      (\<exists>deliveries'.
         load_data lib \<lparr>matches_csv = Inr ms, deliveries_csv = Inr ds\<rparr> =
           ([], Some (map (\<lambda>m. fill_player_of_match (fill_winner (fill_city m))) ms),
            Some deliveries')))
   \<and> (lib = CopyOnWrite \<longrightarrow>
        load_data lib \<lparr>matches_csv = Inr ms, deliveries_csv = Inr ds\<rparr> = ([TypeError], None, None)
        \<or> (\<exists>deliveries'.
             load_data lib \<lparr>matches_csv = Inr ms, deliveries_csv = Inr ds\<rparr> =
               ([], Some ms, Some deliveries')))
   \<and> (load_data lib \<lparr>matches_csv = Inr ms, deliveries_csv = Inr ds\<rparr> =
         (shown, Some matches', Some deliveries') \<longrightarrow>
        delivery ` set deliveries' = set ds
        \<and> (\<forall>r\<in>set deliveries'.
             added_columns r = [''id'', ''season''] \<and>
             ((\<exists>m\<in>set ms. id_col m = match_id (delivery r) \<and>
                 added r = [(''id'', IntCell (id_col m)), (''season'', StrCell (season m))])
              \<or> ((\<forall>m\<in>set ms. id_col m \<noteq> match_id (delivery r)) \<and>
                 added r = [(''id'', NaN), (''season'', NaN)])))
        \<and> (distinct (map id_col ms) \<longrightarrow> map delivery deliveries' = ds))"
proof -
  let ?src = "\<lparr>matches_csv = Inr ms, deliveries_csv = Inr ds\<rparr>"
  let ?D = "concat (map (join_group ms) ds)"
  have 1: "lib = WritesThrough \<longrightarrow>
      (\<exists>deliveries'. load_data lib ?src =
           ([], Some (map (\<lambda>m. fill_player_of_match (fill_winner (fill_city m))) ms),
            Some deliveries'))"
    by (simp add: load_data_def load_body_writes_through)
  have 2: "lib = CopyOnWrite \<longrightarrow>
        load_data lib ?src = ([TypeError], None, None)
        \<or> (\<exists>deliveries'. load_data lib ?src = ([], Some ms, Some deliveries'))"
    by (simp add: load_data_def load_body_copy_on_write)
  have D: "deliveries' = ?D"
    if "load_data lib ?src = (shown, Some matches', Some deliveries')"
    using that
    by (cases lib)
      (auto simp: load_data_def load_body_writes_through load_body_copy_on_write
        split: if_splits)
  have a: "delivery ` set ?D = set ds"
    by (auto simp: delivery_join_group image_UN)
  have b: "\<forall>r\<in>set ?D.
          added_columns r = [''id'', ''season''] \<and>
          ((\<exists>m\<in>set ms. id_col m = match_id (delivery r) \<and>
              added r = [(''id'', IntCell (id_col m)), (''season'', StrCell (season m))])
           \<or> ((\<forall>m\<in>set ms. id_col m \<noteq> match_id (delivery r)) \<and>
              added r = [(''id'', NaN), (''season'', NaN)]))"
  proof
    fix r assume "r \<in> set ?D"
    then obtain d where d: "d \<in> set ds" "r \<in> set (join_group ms d)" by auto
    from d(2) have "delivery r \<in> delivery ` set (join_group ms d)" by (rule imageI)
    then have dr: "delivery r = d" by (simp add: delivery_join_group)
    from join_group_added [OF d(2)] show "added_columns r = [''id'', ''season''] \<and>
          ((\<exists>m\<in>set ms. id_col m = match_id (delivery r) \<and>
              added r = [(''id'', IntCell (id_col m)), (''season'', StrCell (season m))])
           \<or> ((\<forall>m\<in>set ms. id_col m \<noteq> match_id (delivery r)) \<and>
              added r = [(''id'', NaN), (''season'', NaN)]))"
      unfolding dr added_columns_def by auto
  qed
  have c: "distinct (map id_col ms) \<longrightarrow> map delivery ?D = ds"
  proof
    assume "distinct (map id_col ms)"
    then have "map delivery (join_group ms d) = [d]" for d by (rule join_group_single)
    then show "map delivery ?D = ds"
      by (induction ds) auto
  qed
  have 3: "load_data lib ?src = (shown, Some matches', Some deliveries') \<longrightarrow>
        delivery ` set deliveries' = set ds
        \<and> (\<forall>r\<in>set deliveries'.
             added_columns r = [''id'', ''season''] \<and>
             ((\<exists>m\<in>set ms. id_col m = match_id (delivery r) \<and>
                 added r = [(''id'', IntCell (id_col m)), (''season'', StrCell (season m))])
              \<or> ((\<forall>m\<in>set ms. id_col m \<noteq> match_id (delivery r)) \<and>
                 added r = [(''id'', NaN), (''season'', NaN)])))
        \<and> (distinct (map id_col ms) \<longrightarrow> map delivery deliveries' = ds)"
  proof
    assume "load_data lib ?src = (shown, Some matches', Some deliveries')"
    then have "deliveries' = ?D" by (rule D)
    with a b c show "delivery ` set deliveries' = set ds
        \<and> (\<forall>r\<in>set deliveries'.
             added_columns r = [''id'', ''season''] \<and>
             ((\<exists>m\<in>set ms. id_col m = match_id (delivery r) \<and>
                 added r = [(''id'', IntCell (id_col m)), (''season'', StrCell (season m))])
              \<or> ((\<forall>m\<in>set ms. id_col m \<noteq> match_id (delivery r)) \<and>
                 added r = [(''id'', NaN), (''season'', NaN)])))
        \<and> (distinct (map id_col ms) \<longrightarrow> map delivery deliveries' = ds)"
      by simp
  qed
  show ?thesis by (intro conjI 1 2 3)
qed

text \<open>The example again, now through the theorem: the match ids 1 and 2 are distinct.\<close>

theorem load_data_join_witness:
  "distinct (map id_col scenario_A)
   \<and> load_data WritesThrough \<lparr>matches_csv = Inr scenario_A, deliveries_csv = Inr scenario_B\<rparr> =
       ([], Some (map (\<lambda>m. fill_player_of_match (fill_winner (fill_city m))) scenario_A),
        Some [\<lparr>delivery = scenario_B ! 0,
               added = [(''id'', IntCell 1), (''season'', StrCell ''2020'')]\<rparr>,
              \<lparr>delivery = scenario_B ! 1, added = [(''id'', NaN), (''season'', NaN)]\<rparr>])
   \<and> load_data CopyOnWrite \<lparr>matches_csv = Inr scenario_A, deliveries_csv = Inr scenario_B\<rparr> =
       ([], Some scenario_A,
        Some [\<lparr>delivery = scenario_B ! 0,
               added = [(''id'', IntCell 1), (''season'', StrCell ''2020'')]\<rparr>,
              \<lparr>delivery = scenario_B ! 1, added = [(''id'', NaN), (''season'', NaN)]\<rparr>])
   \<and> map delivery
        [\<lparr>delivery = scenario_B ! 0,
          added = [(''id'', IntCell 1), (''season'', StrCell ''2020'')]\<rparr>,
         \<lparr>delivery = scenario_B ! 1, added = [(''id'', NaN), (''season'', NaN)]\<rparr>] = scenario_B"
proof -
  let ?D = "[\<lparr>delivery = scenario_B ! 0,
               added = [(''id'', IntCell 1), (''season'', StrCell ''2020'')]\<rparr>,
             \<lparr>delivery = scenario_B ! 1, added = [(''id'', NaN), (''season'', NaN)]\<rparr>]"
  have d: "distinct (map id_col scenario_A)"
    by (simp add: scenario_A_def)
  have j: "concat (map (join_group scenario_A) scenario_B) = ?D"
    by (simp add: join_group_def scenario_A_def scenario_B_def)
  have w: "load_data WritesThrough \<lparr>matches_csv = Inr scenario_A, deliveries_csv = Inr scenario_B\<rparr> =
       ([], Some (map (\<lambda>m. fill_player_of_match (fill_winner (fill_city m))) scenario_A), Some ?D)"
    by (simp add: load_data_def load_body_writes_through j)
  have c: "load_data CopyOnWrite \<lparr>matches_csv = Inr scenario_A, deliveries_csv = Inr scenario_B\<rparr> =
       ([], Some scenario_A, Some ?D)"
    by (simp add: load_data_def load_body_copy_on_write j) (simp add: scenario_A_def)
  from load_data_join [of WritesThrough scenario_A scenario_B "[]"
      "map (\<lambda>m. fill_player_of_match (fill_winner (fill_city m))) scenario_A" ?D] w d
  have "map delivery ?D = scenario_B" by blast
  with d w c show ?thesis by blast
qed

section \<open>Failing loads\<close>

text \<open>
  C9. Whatever the two reads give, \<open>load_data\<close> returns: when the read of the match file or
  of the delivery file fails, or the body fails in any other way, it shows that one error
  and returns \<open>(None, None)\<close>. The two tables are absent together or present together; they
  are present only when both reads succeed, and, when the fills write through, whenever
  both reads succeed.
\<close>

theorem load_data_failure:
  "(matches_csv src = Inl e \<longrightarrow> load_data lib src = ([e], None, None))
   \<and> (matches_csv src = Inr ms \<and> deliveries_csv src = Inl e \<longrightarrow>
        load_data lib src = ([e], None, None))
   \<and> (load_body lib src = Inl e \<longrightarrow> load_data lib src = ([e], None, None))
   \<and> ((fst (snd (load_data lib src)) = None) = (snd (snd (load_data lib src)) = None))
   \<and> ((\<exists>e'. load_data lib src = ([e'], None, None))
        \<or> (\<exists>m d. load_data lib src = ([], Some m, Some d)))
   \<and> ((\<exists>m d. load_data lib src = ([], Some m, Some d)) \<longrightarrow>
        (\<exists>ms' ds'. matches_csv src = Inr ms' \<and> deliveries_csv src = Inr ds'))
   \<and> (lib = WritesThrough \<longrightarrow>
        ((\<exists>m d. load_data lib src = ([], Some m, Some d)) =
         (\<exists>ms' ds'. matches_csv src = Inr ms' \<and> deliveries_csv src = Inr ds')))"
proof -
  have 1: "matches_csv src = Inl e \<longrightarrow> load_data lib src = ([e], None, None)"
    by (simp add: load_data_def load_body_def)
  have 2: "matches_csv src = Inr ms \<and> deliveries_csv src = Inl e \<longrightarrow>
        load_data lib src = ([e], None, None)"
    by (simp add: load_data_def load_body_def)
  have 3: "load_body lib src = Inl e \<longrightarrow> load_data lib src = ([e], None, None)"
    by (simp add: load_data_def)
  have 4: "(fst (snd (load_data lib src)) = None) = (snd (snd (load_data lib src)) = None)"
    by (simp add: load_data_def split: sum.split prod.split)
  have 5: "(\<exists>e'. load_data lib src = ([e'], None, None))
        \<or> (\<exists>m d. load_data lib src = ([], Some m, Some d))"
    by (simp add: load_data_def split: sum.split prod.split)
  have 6: "(\<exists>m d. load_data lib src = ([], Some m, Some d)) \<longrightarrow>
        (\<exists>ms' ds'. matches_csv src = Inr ms' \<and> deliveries_csv src = Inr ds')"
    by (auto simp: load_data_def load_body_def split: sum.splits)
  have 7: "lib = WritesThrough \<longrightarrow>
        ((\<exists>m d. load_data lib src = ([], Some m, Some d)) =
         (\<exists>ms' ds'. matches_csv src = Inr ms' \<and> deliveries_csv src = Inr ds'))"
    by (auto simp: load_data_def load_body_def fillna_inplace_def split: sum.splits)
  show ?thesis by (intro conjI 1 2 3 4 5 6 7)
qed

text \<open>A missing match file, a delivery file that does not parse, and a fill that raises.\<close>

theorem load_data_failure_witness:
  "load_data WritesThrough \<lparr>matches_csv = Inl FileNotFoundError, deliveries_csv = Inr scenario_B\<rparr> =
     ([FileNotFoundError], None, None)
   \<and> load_data CopyOnWrite \<lparr>matches_csv = Inr scenario_A, deliveries_csv = Inl ParserError\<rparr> =
     ([ParserError], None, None)
   \<and> load_data CopyOnWrite \<lparr>matches_csv = Inr scenario_F, deliveries_csv = Inr scenario_B\<rparr> =
     ([TypeError], None, None)"
proof -
  have b: "load_body CopyOnWrite \<lparr>matches_csv = Inr scenario_F, deliveries_csv = Inr scenario_B\<rparr> =
      Inl TypeError"
    by (simp add: load_body_copy_on_write scenario_F_def) (simp add: scenario_A_def)
  show ?thesis
    using load_data_failure [where src = "\<lparr>matches_csv = Inl FileNotFoundError,
        deliveries_csv = Inr scenario_B\<rparr>" and e = FileNotFoundError and lib = WritesThrough]
      load_data_failure [where src = "\<lparr>matches_csv = Inr scenario_A,
        deliveries_csv = Inl ParserError\<rparr>" and e = ParserError and ms = scenario_A
        and lib = CopyOnWrite]
      load_data_failure [where src = "\<lparr>matches_csv = Inr scenario_F,
        deliveries_csv = Inr scenario_B\<rparr>" and e = TypeError and lib = CopyOnWrite]
      b
    by simp
qed

section \<open>Win rate\<close>

text \<open>
  C4. For every team, \<open>win_rate\<close> returns a value and never the division error: it is
  wins / matches * 100 when the team has matches, and 0 when it has none.
\<close>

theorem win_rate_total:
  "win_rate t matches =
     Inr (if length (team_matches t matches) = 0 then 0
          else of_nat (length (team_wins t matches)) / of_nat (length (team_matches t matches)) * 100)
   \<and> (length (team_matches t matches) = 0 \<longrightarrow> win_rate t matches = Inr 0)
   \<and> win_rate t matches \<noteq> Inl ZeroDivisionError"
  by (simp add: win_rate_def truediv_def)

text \<open>A team without matches has rate 0; team A won one of its two matches.\<close>

theorem win_rate_total_witness:
  "length (team_matches ''Z'' scenario_A) = 0 \<and> win_rate ''Z'' scenario_A = Inr 0
   \<and> win_rate ''A'' scenario_A = Inr 50"
  using win_rate_total [of "''Z''" scenario_A] win_rate_total [of "''A''" scenario_A]
  by (simp add: scenario_A_def team_matches_def team_wins_def)

section \<open>Toss impact\<close>

text \<open>
  C5. \<open>toss_impact\<close> drops every row whose winner is "No Result" and counts the remaining rows
  by the truth value of \<open>toss_winner = winner\<close>: the bucket of \<open>True\<close> and the bucket of
  \<open>False\<close> hold the rows kept with that value, no value is listed twice, and the counts add
  up to the number of rows whose winner is not "No Result".
\<close>

theorem toss_impact_partition:
  "bucket (toss_impact s matches) True =
     length (filter (\<lambda>m. winner m \<noteq> Some ''No Result'' \<and> winner m = Some (toss_winner m)) matches)
   \<and> bucket (toss_impact s matches) False =
     length (filter (\<lambda>m. winner m \<noteq> Some ''No Result'' \<and> winner m \<noteq> Some (toss_winner m)) matches)
   \<and> distinct (map fst (toss_impact s matches))
   \<and> sum_list (map snd (toss_impact s matches)) =
     length (filter (\<lambda>m. winner m \<noteq> Some ''No Result'') matches)
   \<and> bucket (toss_impact s matches) True + bucket (toss_impact s matches) False =
     length (filter (\<lambda>m. winner m \<noteq> Some ''No Result'') matches)"
proof -
  let ?keep = "\<lambda>m. winner m \<noteq> Some ''No Result''"
  let ?won = "\<lambda>m. winner m = Some (toss_winner m)"
  have t: "bucket (toss_impact s matches) True = length (filter (\<lambda>m. ?keep m \<and> ?won m) matches)"
    by (simp add: toss_impact_def bucket_value_counts count_list_map matches_with_result_def
        toss_winner_is_match_winner_def conj_commute)
  have f: "bucket (toss_impact s matches) False = length (filter (\<lambda>m. ?keep m \<and> \<not> ?won m) matches)"
    by (simp add: toss_impact_def bucket_value_counts count_list_map matches_with_result_def
        toss_winner_is_match_winner_def conj_commute)
  have d: "distinct (map fst (toss_impact s matches))"
    by (simp add: toss_impact_def distinct_keys_value_counts)
  have s: "sum_list (map snd (toss_impact s matches)) = length (filter ?keep matches)"
    by (simp add: toss_impact_def sum_value_counts matches_with_result_def)
  have "length (filter (\<lambda>m. ?keep m \<and> ?won m) matches)
        + length (filter (\<lambda>m. ?keep m \<and> \<not> ?won m) matches) = length (filter ?keep matches)"
    by (induction matches) auto
  with t f d s show ?thesis by simp
qed

section \<open>Matches and wins of a team\<close>

text \<open>
  C6, as stated, fails: nothing ties the winner of a row to its two teams. In the example
  table team A (a team of the \<open>team1\<close> column) has one match and two wins.
\<close>

theorem team_wins_exceed_team_matches:
  "''A'' \<in> set (teams scenario_C)
   \<and> length (team_matches ''A'' scenario_C) = 1
   \<and> length (team_wins ''A'' scenario_C) = 2
   \<and> \<not> length (team_matches ''A'' scenario_C) \<ge> length (team_wins ''A'' scenario_C)"
  by (simp add: scenario_C_def teams_def team_matches_def team_wins_def)

text \<open>
  C6, amended. If every row won by \<open>t\<close> has \<open>t\<close> as one of its two teams, the matches of
  \<open>t\<close> are at least as many as its wins.
\<close>

theorem team_matches_ge_team_wins:
  assumes "\<forall>m\<in>set matches. winner m = Some t \<longrightarrow> team1 m = t \<or> team2 m = t"
  shows "length (team_matches t matches) \<ge> length (team_wins t matches)"
  using assms unfolding team_matches_def team_wins_def
  by (induction matches) auto

text \<open>In the first example table every match won by A is a match of A.\<close>

theorem team_matches_ge_team_wins_witness:
  "length (team_matches ''A'' scenario_A) \<ge> length (team_wins ''A'' scenario_A)
   \<and> length (team_wins ''A'' scenario_A) = 1"
proof -
  have h: "\<forall>m\<in>set scenario_A. winner m = Some ''A'' \<longrightarrow> team1 m = ''A'' \<or> team2 m = ''A''"
    by (simp add: scenario_A_def)
  show ?thesis
    using team_matches_ge_team_wins [OF h] by (simp add: scenario_A_def team_wins_def)
qed

section \<open>The teams\<close>

text \<open>
  C10. The number of teams on the home page and the choices of the team selector come from
  the \<open>team1\<close> column alone: the number is the number of distinct \<open>team1\<close> values, which are
  exactly the selectable teams, each listed once; a team that is no \<open>team1\<close> value is not
  selectable (whatever the \<open>team2\<close> column holds), and two tables with the same \<open>team1\<close>
  column give the same number and the same choices.
\<close>

theorem teams_from_team1:
  "total_teams matches = card (set (map team1 matches))
   \<and> set (teams matches) = set (map team1 matches)
   \<and> distinct (teams matches)
   \<and> total_teams matches = length (teams matches)
   \<and> (t \<notin> set (map team1 matches) \<longrightarrow> t \<notin> set (teams matches))
   \<and> (map team1 matches = map team1 matches' \<longrightarrow>
        total_teams matches = total_teams matches' \<and> teams matches = teams matches')"
  by (simp add: total_teams_def teams_def nunique_def length_unique set_unique distinct_unique)

text \<open>Team B plays only as \<open>team2\<close> in the example: one team is counted, and only A is selectable.\<close>

theorem teams_from_team1_witness:
  "''B'' \<in> set (map team2 scenario_A) \<and> ''B'' \<notin> set (map team1 scenario_A)
   \<and> ''B'' \<notin> set (teams scenario_A) \<and> total_teams scenario_A = 1 \<and> teams scenario_A = [''A'']"
  using teams_from_team1 [of scenario_A "''B''" scenario_A]
  by (simp add: scenario_A_def total_teams_def teams_def nunique_def)

section \<open>Top wicket takers\<close>

text \<open>
  C8. Every row of \<open>top_bowlers n\<close> gives a bowler the number of deliveries with a present
  \<open>player_dismissed\<close> that name this bowler, at least one; deliveries without a dismissal do
  not count (dropping them first changes nothing); the dismissal kind plays no part
  (rewriting it in every row changes nothing, so a run-out counts for the bowler); the
  result is the first \<open>n\<close> rows of the full ranking, which lists exactly the bowlers of
  deliveries with a dismissal and whose counts add up to the number of those deliveries.
\<close>

theorem top_bowlers_counts:
  "(\<forall>(b, c) \<in> set (top_bowlers s n deliveries).
      c = length (filter (\<lambda>r. player_dismissed (delivery r) \<noteq> None \<and> bowler (delivery r) = b)
                    deliveries) \<and> 0 < c)
   \<and> top_bowlers s n deliveries =
       top_bowlers s n (filter (\<lambda>r. player_dismissed (delivery r) \<noteq> None) deliveries)
   \<and> top_bowlers s n (map (\<lambda>r. r\<lparr>delivery := (delivery r)\<lparr>dismissal_kind := k r\<rparr>\<rparr>) deliveries) =
       top_bowlers s n deliveries
   \<and> top_bowlers s n deliveries = take n (top_bowlers s (length deliveries) deliveries)
   \<and> fst ` set (top_bowlers s (length deliveries) deliveries) =
       {bowler (delivery r) | r. r \<in> set deliveries \<and> player_dismissed (delivery r) \<noteq> None}
   \<and> sum_list (map snd (top_bowlers s (length deliveries) deliveries)) =
       length (filter (\<lambda>r. player_dismissed (delivery r) \<noteq> None) deliveries)"
proof -
  let ?bs = "map (\<lambda>r. bowler (delivery r)) (wickets deliveries)"
  let ?rank = "sort_values_desc s (groupby_size ?bs)"
  have top: "top_bowlers s j deliveries = take j ?rank" for j
    by (simp add: top_bowlers_def head_def)
  have "length ?rank = length (groupby_size ?bs)"
    by (rule length_sort_values_desc)
  also have "\<dots> \<le> length ?bs"
    by (rule length_groupby_size_le)
  also have "\<dots> \<le> length deliveries"
    by (simp add: wickets_def)
  finally have full: "top_bowlers s (length deliveries) deliveries = ?rank"
    by (simp add: top)
  have cnt: "count_list ?bs b =
      length (filter (\<lambda>r. player_dismissed (delivery r) \<noteq> None \<and> bowler (delivery r) = b) deliveries)"
    for b
    by (simp add: count_list_map wickets_def conj_commute)
  have 1: "\<forall>(b, c) \<in> set (top_bowlers s n deliveries).
      c = length (filter (\<lambda>r. player_dismissed (delivery r) \<noteq> None \<and> bowler (delivery r) = b)
                    deliveries) \<and> 0 < c"
  proof -
    have "set (take n ?rank) \<subseteq> set ?rank" by (rule set_take_subset)
    then have sub: "set (top_bowlers s n deliveries) \<subseteq> (\<lambda>b. (b, count_list ?bs b)) ` set ?bs"
      by (simp add: top set_sort_values_desc set_groupby_size)
    have pos: "0 < count_list ?bs b" if "b \<in> set ?bs" for b
      using that count_list_0_iff [of ?bs b] by linarith
    show ?thesis
    proof (rule ballI, rule case_prodI2)
      fix p b c
      assume "p \<in> set (top_bowlers s n deliveries)" and p: "p = (b, c)"
      with sub have "(b, c) \<in> (\<lambda>b. (b, count_list ?bs b)) ` set ?bs" by blast
      then have "b \<in> set ?bs" and "c = count_list ?bs b" by blast+
      then show "c = length (filter (\<lambda>r. player_dismissed (delivery r) \<noteq> None \<and>
                    bowler (delivery r) = b) deliveries) \<and> 0 < c"
        using cnt [of b] pos [of b] by simp
    qed
  qed
  have 2: "top_bowlers s n deliveries =
       top_bowlers s n (filter (\<lambda>r. player_dismissed (delivery r) \<noteq> None) deliveries)"
    by (simp add: top_bowlers_def wickets_def)
  have 3: "top_bowlers s n (map (\<lambda>r. r\<lparr>delivery := (delivery r)\<lparr>dismissal_kind := k r\<rparr>\<rparr>) deliveries) =
       top_bowlers s n deliveries"
    by (simp add: top_bowlers_def wickets_def filter_map comp_def)
  have 4: "top_bowlers s n deliveries = take n (top_bowlers s (length deliveries) deliveries)"
    by (simp add: full) (simp add: top)
  have 5: "fst ` set (top_bowlers s (length deliveries) deliveries) =
       {bowler (delivery r) | r. r \<in> set deliveries \<and> player_dismissed (delivery r) \<noteq> None}"
  proof -
    have "fst ` set ?rank = set ?bs"
      by (simp add: set_sort_values_desc set_groupby_size image_image)
    also have "\<dots> = {bowler (delivery r) | r. r \<in> set deliveries \<and> player_dismissed (delivery r) \<noteq> None}"
      unfolding wickets_def by auto
    finally show ?thesis unfolding full .
  qed
  have 6: "sum_list (map snd (top_bowlers s (length deliveries) deliveries)) =
       length (filter (\<lambda>r. player_dismissed (delivery r) \<noteq> None) deliveries)"
    unfolding full by (simp add: sum_sort_values_desc sum_groupby_size wickets_def)
  show ?thesis by (intro conjI 1 2 3 4 5 6)
qed

text \<open>In the example bowler Y is credited with a run-out and a catch, W with one wicket.\<close>

theorem top_bowlers_counts_witness:
  "top_bowlers ties_in_order 3 scenario_D = [(''Y'', 2), (''W'', 1)]
   \<and> length (filter (\<lambda>r. player_dismissed (delivery r) \<noteq> None \<and> bowler (delivery r) = ''Y'')
        scenario_D) = 2"
proof -
  have e: "top_bowlers ties_in_order 3 scenario_D = [(''Y'', 2), (''W'', 1)]"
    by (simp add: top_bowlers_def head_def sort_values_desc_ties_in_order groupby_size_def wickets_def
        scenario_D_def)
  from top_bowlers_counts [of ties_in_order 3 scenario_D]
  have "\<forall>(b, c) \<in> set (top_bowlers ties_in_order 3 scenario_D).
      c = length (filter (\<lambda>r. player_dismissed (delivery r) \<noteq> None \<and> bowler (delivery r) = b)
                    scenario_D) \<and> 0 < c"
    by (rule conjunct1)
  then have "length (filter (\<lambda>r. player_dismissed (delivery r) \<noteq> None \<and>
      bowler (delivery r) = ''Y'') scenario_D) = 2"
    unfolding e by simp
  with e show ?thesis by simp
qed

end
